theory Spec2Isabelle
  imports Main
begin

section \<open>Python and numpy primitives used by gameoflife.py\<close>

text \<open>
  The exceptions the program can raise. \<open>SystemExit\<close> is what \<open>sys.exit\<close> raises,
  \<open>IndexError\<close> is numpy's out-of-bounds error.
\<close>

datatype error = TypeError | ValueError | IndexError | ZeroDivisionError | SystemExit

text \<open>
  A two-dimensional numpy array is a list of rows. The program only ever stores whole
  numbers in it (as floats or as ints), so an entry is an \<open>int\<close>.
\<close>

type_synonym ndarray = "int list list"

text \<open>
  An argument as Python finds it at run time: an int, a list of ints, a string or
  \<open>None\<close>. A bool is not among these values: Python counts it as an int, stores it as
  \<open>True\<close> or \<open>False\<close> and prints it so, which a list of integers cannot show. Where a
  method tests for a bool, its argument is a \<open>flag\<close>: a bool, or one of the other values.
\<close>

datatype pyval = PyInt int | PyList "int list" | PyStr string | PyNone

datatype flag = IsBool bool | NotBool pyval

definition py_range :: "int \<Rightarrow> int list" where
  "py_range n = map int [0..<nat n]"

text \<open>
  \<open>np.mod\<close> on integers: the result has the sign of the divisor; a zero divisor gives 0
  (with a warning), not an exception.
\<close>

definition np_mod :: "int \<Rightarrow> int \<Rightarrow> int" where
  "np_mod x m = (if m = 0 then 0 else x mod m)"

text \<open>
  Indexing one axis of length \<open>n\<close> with the integer \<open>k\<close>: \<open>0 \<le> k < n\<close> is the position
  itself, \<open>-n \<le> k < 0\<close> counts from the end, anything else raises \<open>IndexError\<close>.
\<close>

definition np_index :: "nat \<Rightarrow> int \<Rightarrow> error + nat" where
  "np_index n k =
     (if 0 \<le> k \<and> k < int n then Inr (nat k)
      else if - int n \<le> k \<and> k < 0 then Inr (nat (k + int n))
      else Inl IndexError)"

definition getitem :: "ndarray \<Rightarrow> int \<Rightarrow> int \<Rightarrow> error + int" where
  "getitem a r c =
     (case np_index (length a) r of
        Inl e \<Rightarrow> Inl e
      | Inr r' \<Rightarrow>
          (case np_index (length (a ! r')) c of
             Inl e \<Rightarrow> Inl e
           | Inr c' \<Rightarrow> Inr (a ! r' ! c')))"

definition setitem :: "ndarray \<Rightarrow> int \<Rightarrow> int \<Rightarrow> int \<Rightarrow> error + ndarray" where
  "setitem a r c v =
     (case np_index (length a) r of
        Inl e \<Rightarrow> Inl e
      | Inr r' \<Rightarrow>
          (case np_index (length (a ! r')) c of
             Inl e \<Rightarrow> Inl e
           | Inr c' \<Rightarrow> Inr (a[r' := (a ! r')[c' := v]])))"

text \<open>Reading a list of positions (numpy's integer-array indexing); the first bad position raises.\<close>

fun getitems :: "ndarray \<Rightarrow> (int \<times> int) list \<Rightarrow> error + int list" where
  "getitems a [] = Inr []"
| "getitems a ((r, c) # ps) =
     (case getitem a r c of
        Inl e \<Rightarrow> Inl e
      | Inr v \<Rightarrow> (case getitems a ps of Inl e \<Rightarrow> Inl e | Inr vs \<Rightarrow> Inr (v # vs)))"

definition count_nonzero :: "int list \<Rightarrow> int" where
  "count_nonzero v = int (length (filter (\<lambda>x. x \<noteq> 0) v))"

definition np_zeros :: "int \<Rightarrow> int \<Rightarrow> ndarray" where
  "np_zeros h w = replicate (nat h) (replicate (nat w) 0)"

text \<open>
  \<open>np.empty_like\<close> gives an array of the same shape whose entries are whatever was in
  memory. The value \<open>-1\<close> stands for that content here; \<open>update_cells\<close> below takes the
  buffer as an argument, and its result is proved for every content of the buffer.
\<close>

definition np_empty_like :: "ndarray \<Rightarrow> ndarray" where
  "np_empty_like a = map (map (\<lambda>_. - 1)) a"

definition py_max :: "int list \<Rightarrow> error + int" where
  \<comment> \<open>\<open>max\<close> of a list; the empty list raises \<open>ValueError\<close>.\<close>
  "py_max xs = (case xs of [] \<Rightarrow> Inl ValueError | x # ys \<Rightarrow> Inr (fold max ys x))"

text \<open>Sequencing of two steps that may raise: the second runs only if the first returned.\<close>

definition and_then :: "error + 'a \<Rightarrow> ('a \<Rightarrow> error + 'b) \<Rightarrow> error + 'b" where
  "and_then r f = (case r of Inl e \<Rightarrow> Inl e | Inr x \<Rightarrow> f x)"

text \<open>\<open>str.lower\<close> on ASCII text, and \<open>str\<close> of an integer.\<close>

definition lower_char :: "char \<Rightarrow> char" where
  "lower_char c =
     (let n = (of_char c :: nat) in if 65 \<le> n \<and> n \<le> 90 then char_of (n + 32) else c)"

definition lower :: "string \<Rightarrow> string" where
  "lower s = map lower_char s"

definition digit_char :: "nat \<Rightarrow> char" where
  "digit_char d = ''0123456789'' ! d"

fun str_nat :: "nat \<Rightarrow> string" where
  "str_nat n = (if n < 10 then [digit_char n] else str_nat (n div 10) @ [digit_char (n mod 10)])"

definition str_int :: "int \<Rightarrow> string" where
  "str_int i = (if i < 0 then CHR ''-'' # str_nat (nat (- i)) else str_nat (nat i))"

text \<open>The shape of a two-dimensional array: rows, and columns of the first row.\<close>

definition shape :: "ndarray \<Rightarrow> int \<times> int" where
  "shape a = (int (length a), (case a of [] \<Rightarrow> 0 | row # _ \<Rightarrow> int (length row)))"

text \<open>
  The iterations of two nested loops \<open>for i in range(h): for j in range(w)\<close>, in the
  order they run.
\<close>

definition coords :: "int \<Rightarrow> int \<Rightarrow> (int \<times> int) list" where
  "coords h w = concat (map (\<lambda>i. map (\<lambda>j. (i, j)) (py_range w)) (py_range h))"

section \<open>The class Grid\<close>

record Grid =
  clear :: bool
  fps :: int
  born :: "int list"
  survive :: "int list"
  neighbourhood_type :: string
  width :: int
  height :: int
  grid :: ndarray

subsection \<open>Configuration\<close>

definition set_clear_terminal :: "flag \<Rightarrow> Grid \<Rightarrow> error + Grid" where
  "set_clear_terminal v g =
     (case v of IsBool b \<Rightarrow> Inr (g\<lparr>clear := b\<rparr>) | NotBool _ \<Rightarrow> Inl TypeError)"

definition set_fps :: "int \<Rightarrow> Grid \<Rightarrow> Grid" where
  "set_fps v g = g\<lparr>fps := v\<rparr>"

text \<open>
  \<open>set_rules\<close> stores a list as it is and wraps an int into a one-element list; a
  value of another type raises \<open>TypeError\<close>. Nothing else is checked.
\<close>

definition rule_list :: "pyval \<Rightarrow> error + int list" where
  "rule_list v =
     (case v of
        PyList xs \<Rightarrow> Inr xs
      | PyInt n \<Rightarrow> Inr [n]
      | _ \<Rightarrow> Inl TypeError)"

definition set_rules :: "pyval \<Rightarrow> pyval \<Rightarrow> Grid \<Rightarrow> error + Grid" where
  "set_rules b s g =
     and_then (rule_list b) (\<lambda>bs.
     and_then (rule_list s) (\<lambda>ss.
       Inr (g\<lparr>born := bs, survive := ss\<rparr>)))"

definition get_rules :: "Grid \<Rightarrow> string" where
  "get_rules g =
     ''B'' @ concat (map str_int (born g)) @ ''/S'' @ concat (map str_int (survive g))"

definition set_neighbourhood_type :: "pyval \<Rightarrow> Grid \<Rightarrow> error + Grid" where
  "set_neighbourhood_type v g =
     (case v of
        PyStr s \<Rightarrow>
          (if lower s = ''moore'' \<or> lower s = ''vonneumann''
           then Inr (g\<lparr>neighbourhood_type := lower s\<rparr>)
           else Inl ValueError)
      | _ \<Rightarrow> Inl TypeError)"

text \<open>
  The test of \<open>__init__\<close> on the rules and the neighbourhood type; \<open>or\<close> evaluates its
  second operand only when the first is false.
\<close>

definition over :: "int \<Rightarrow> Grid \<Rightarrow> error + bool" where
  "over limit g =
     and_then (py_max (born g)) (\<lambda>mb.
       if mb > limit then Inr True
       else and_then (py_max (survive g)) (\<lambda>ms. Inr (ms > limit)))"

definition incompatible :: "Grid \<Rightarrow> error + bool" where
  "incompatible g =
     (let moore = (neighbourhood_type g = ''moore'') in
      and_then (over 8 g) (\<lambda>over_eight.
        let vonneumann = (neighbourhood_type g = ''vonneumann'') in
        and_then (over 4 g) (\<lambda>over_four.
          Inr ((moore \<and> over_eight) \<or> (vonneumann \<and> over_four)))))"

subsection \<open>Seeding\<close>

text \<open>The offset \<open>(self.height - h) // 2\<close> of \<open>centre_grid\<close>; \<open>//\<close> rounds down, as \<open>div\<close> does.\<close>

definition centre_offset :: "int \<Rightarrow> int \<Rightarrow> int" where
  "centre_offset extent n = (extent - n) div 2"

fun centre_cells ::
  "ndarray \<Rightarrow> int \<Rightarrow> int \<Rightarrow> (int \<times> int) list \<Rightarrow> ndarray \<Rightarrow> error + ndarray" where
  "centre_cells array hdiff wdiff [] a = Inr a"
| "centre_cells array hdiff wdiff ((i, j) # cs) a =
     and_then (getitem array i j) (\<lambda>v.
     and_then (setitem a (i + hdiff) (j + wdiff) v) (\<lambda>a'.
       centre_cells array hdiff wdiff cs a'))"

definition centre_grid :: "Grid \<Rightarrow> ndarray \<Rightarrow> error + Grid" where
  "centre_grid g array =
     (let (h, w) = shape array;
          hdiff = centre_offset (height g) h;
          wdiff = centre_offset (width g) w
      in and_then (centre_cells array hdiff wdiff (coords h w) (grid g)) (\<lambda>a.
           Inr (g\<lparr>grid := a\<rparr>)))"

text \<open>
  \<open>read_from_file\<close>: the file has been read by \<open>np.genfromtxt\<close>; its argument here is
  the array that call returned.
\<close>

definition read_from_file :: "Grid \<Rightarrow> ndarray \<Rightarrow> error + Grid" where
  "read_from_file g array = centre_grid g array"

subsection \<open>Construction\<close>

text \<open>
  \<open>__init__\<close>. The terminal size \<open>(cols, rows)\<close> and the array drawn by the random
  generator come from outside and are arguments. \<open>fname\<close> is the parsed content of
  the file when a file name is given. The attributes do not exist before they are
  assigned; \<open>unset\<close> stands for the object at that point.
\<close>

definition unset :: Grid where
  "unset = \<lparr>clear = False, fps = 0, born = [], survive = [], neighbourhood_type = [],
            width = 0, height = 0, grid = []\<rparr>"

definition init ::
  "int \<times> int \<Rightarrow> ndarray \<Rightarrow> int option \<Rightarrow> int option \<Rightarrow> ndarray option \<Rightarrow> bool \<Rightarrow> error + Grid" where
  "init terminal_size drawn width0 height0 fname random =
     and_then (set_clear_terminal (IsBool True) unset) (\<lambda>g1.
     and_then (set_rules (PyList [3]) (PyList [2, 3]) (set_fps 60 g1)) (\<lambda>g2.
     and_then (set_neighbourhood_type (PyStr ''Moore'') g2) (\<lambda>g3.
     and_then (incompatible g3) (\<lambda>bad.
       if bad then Inl ValueError
       else
         let cols = fst terminal_size - 1;
             rows = snd terminal_size - 1;
             w = (case width0 of
                    None \<Rightarrow> if cols mod 2 = 0 then cols else cols - 1
                  | Some x \<Rightarrow> x);
             h = (case height0 of
                    None \<Rightarrow> if rows mod 2 \<noteq> 0 then rows else rows - 1
                  | Some x \<Rightarrow> x)
         in if w < 5 \<or> h < 5 then Inl SystemExit
            else
              let g4 = g3\<lparr>width := w - 2, height := h - 2, grid := np_zeros (h - 2) (w - 2)\<rparr>
              in (case fname of
                    Some array \<Rightarrow> read_from_file g4 array
                  | None \<Rightarrow> if random then Inr (g4\<lparr>grid := drawn\<rparr>) else Inr g4)))))"

subsection \<open>Neighbourhoods and the update of one cell\<close>

text \<open>
  The index arrays that \<open>_view\<close> builds: for vonNeumann five (row, column) pairs, the
  cell itself second; for Moore the product of three rows and three columns
  (\<open>np.ix_\<close>), row by row, the cell itself in the middle.
\<close>

definition vonneumann_points :: "int \<Rightarrow> int \<Rightarrow> int \<Rightarrow> int \<Rightarrow> (int \<times> int) list" where
  "vonneumann_points h w i j =
     (let cols = map (\<lambda>x. np_mod x h) [i, i, i, i - 1, i + 1];
          rows = map (\<lambda>x. np_mod x w) [j - 1, j, j + 1, j, j]
      in zip cols rows)"

definition moore_points :: "int \<Rightarrow> int \<Rightarrow> int \<Rightarrow> int \<Rightarrow> (int \<times> int) list" where
  "moore_points h w i j =
     (let cols = map (\<lambda>x. np_mod x h) [i - 1, i, i + 1];
          rows = map (\<lambda>x. np_mod x w) [j - 1, j, j + 1]
      in concat (map (\<lambda>r. map (\<lambda>c. (r, c)) rows) cols))"

text \<open>\<open>_view\<close>: the values of the cell and its neighbours (row-major), and the value of the cell.\<close>

definition view :: "Grid \<Rightarrow> int \<Rightarrow> int \<Rightarrow> error + (int list \<times> int)" where
  "view g i j =
     (if neighbourhood_type g = ''vonneumann'' then
        (case getitems (grid g) (vonneumann_points (height g) (width g) i j) of
           Inl e \<Rightarrow> Inl e
         | Inr v \<Rightarrow> Inr (v, v ! 1))
      else if neighbourhood_type g = ''moore'' then
        (case getitems (grid g) (moore_points (height g) (width g) i j) of
           Inl e \<Rightarrow> Inl e
         | Inr v \<Rightarrow> Inr (v, v ! 4))
      else Inl ValueError)"

definition neighbour_alive_count :: "Grid \<Rightarrow> int \<Rightarrow> int \<Rightarrow> error + int" where
  "neighbour_alive_count g i j =
     (case view g i j of
        Inl e \<Rightarrow> Inl e
      | Inr (v, cell_value) \<Rightarrow> Inr (count_nonzero v - cell_value))"

text \<open>The three-way test at the end of \<open>_update_cell\<close>.\<close>

definition apply_rules :: "Grid \<Rightarrow> int \<Rightarrow> int \<Rightarrow> int" where
  "apply_rules g cell_value n =
     (if cell_value = 0 \<and> n \<in> set (born g) then 1
      else if cell_value = 1 \<and> n \<in> set (survive g) then 1
      else 0)"

definition update_cell :: "Grid \<Rightarrow> int \<Rightarrow> int \<Rightarrow> error + int" where
  "update_cell g i j =
     (case view g i j of
        Inl e \<Rightarrow> Inl e
      | Inr (v, cell_value) \<Rightarrow>
          Inr (apply_rules g cell_value (count_nonzero v - cell_value)))"

subsection \<open>One generation\<close>

text \<open>
  The loop body, run over a list of coordinates: every result is computed from \<open>g\<close>, the
  grid of the previous generation, and written into the buffer \<open>tok\<close>.
\<close>

fun update_cells :: "Grid \<Rightarrow> (int \<times> int) list \<Rightarrow> ndarray \<Rightarrow> error + ndarray" where
  "update_cells g [] tok = Inr tok"
| "update_cells g ((i, j) # cs) tok =
     (case update_cell g i j of
        Inl e \<Rightarrow> Inl e
      | Inr v \<Rightarrow>
          (case setitem tok i j v of
             Inl e \<Rightarrow> Inl e
           | Inr tok' \<Rightarrow> update_cells g cs tok'))"

definition update_grid :: "Grid \<Rightarrow> error + Grid" where
  "update_grid g =
     (case update_cells g (coords (height g) (width g)) (np_empty_like (grid g)) of
        Inl e \<Rightarrow> Inl e
      | Inr token_grid \<Rightarrow> Inr (g\<lparr>grid := token_grid\<rparr>))"

subsection \<open>The animation loop\<close>

definition all_dead_or_alive :: "Grid \<Rightarrow> bool" where
  "all_dead_or_alive g =
     (let all_dead = (count_nonzero (concat (grid g)) = 0);
          all_alive = (count_nonzero (concat (grid g)) = int (length (concat (grid g))))
      in all_dead \<or> all_alive)"

text \<open>
  \<open>time.sleep(1 / self.fps)\<close>: the division raises for \<open>fps = 0\<close>, and \<open>sleep\<close> raises
  \<open>ValueError\<close> for a negative time. The waiting itself is not modelled.
\<close>

definition sleep_frame :: "Grid \<Rightarrow> error + unit" where
  "sleep_frame g =
     (if fps g = 0 then Inl ZeroDivisionError
      else if fps g < 0 then Inl ValueError
      else Inr ())"

text \<open>
  \<open>iterate\<close>: one update, then the grid is printed. The output is the list of the
  arrays printed so far (\<open>__str__\<close> draws one frame from one array); clearing the
  terminal leaves no trace in it.
\<close>

definition iterate :: "Grid \<Rightarrow> ndarray list \<Rightarrow> error + Grid \<times> ndarray list" where
  "iterate g out =
     and_then (update_grid g) (\<lambda>g'.
       let out' = out @ [grid g'] in
       and_then (sleep_frame g') (\<lambda>_. Inr (g', out')))"

text \<open>The \<open>while True\<close> loop of \<open>run\<close>; \<open>None\<close> is the loop that never ends.\<close>

partial_function (option) run_forever ::
  "Grid \<Rightarrow> ndarray list \<Rightarrow> (error + Grid \<times> ndarray list) option" where
  "run_forever g out =
     (case iterate g out of
        Inl e \<Rightarrow> Some (Inl e)
      | Inr (g', out') \<Rightarrow>
          if all_dead_or_alive g' then Some (Inr (g', out')) else run_forever g' out')"

text \<open>The \<open>for i in range(niter)\<close> loop of \<open>run\<close>, over the values of \<open>i\<close>.\<close>

fun run_for :: "int list \<Rightarrow> Grid \<Rightarrow> ndarray list \<Rightarrow> error + Grid \<times> ndarray list" where
  "run_for [] g out = Inr (g, out)"
| "run_for (i # rest) g out =
     (case iterate g out of
        Inl e \<Rightarrow> Inl e
      | Inr (g', out') \<Rightarrow>
          if all_dead_or_alive g' then Inr (g', out') else run_for rest g' out')"

text \<open>\<open>run\<close>, after the title screen (which only prints).\<close>

definition run :: "int option \<Rightarrow> Grid \<Rightarrow> ndarray list \<Rightarrow> (error + Grid \<times> ndarray list) option" where
  "run niter g out =
     (case niter of
        None \<Rightarrow> run_forever g out
      | Some n \<Rightarrow> Some (run_for (py_range n) g out))"

section \<open>Invariant of the class and reference functions\<close>

text \<open>
  What \<open>__init__\<close> establishes and every method keeps: the array has \<open>height\<close> rows of
  \<open>width\<close> entries, both positive, and the neighbourhood type is one of the two names.
\<close>

definition wf_grid :: "Grid \<Rightarrow> bool" where
  "wf_grid g =
     (0 < height g \<and> 0 < width g \<and> length (grid g) = nat (height g) \<and>
      list_all (\<lambda>row. length row = nat (width g)) (grid g) \<and>
      (neighbourhood_type g = ''moore'' \<or> neighbourhood_type g = ''vonneumann''))"

definition has_shape :: "nat \<Rightarrow> nat \<Rightarrow> ndarray \<Rightarrow> bool" where
  "has_shape h w a = (length a = h \<and> list_all (\<lambda>row. length row = w) a)"

definition in_shape :: "nat \<Rightarrow> nat \<Rightarrow> int \<times> int \<Rightarrow> bool" where
  "in_shape h w p = (0 \<le> fst p \<and> fst p < int h \<and> 0 \<le> snd p \<and> snd p < int w)"

text \<open>The entry at a row and a column that are known to be in range.\<close>

definition at :: "ndarray \<Rightarrow> int \<Rightarrow> int \<Rightarrow> int" where
  "at a r c = a ! nat r ! nat c"

text \<open>
  The next state of one cell as a plain value, and the array of the next states of all
  cells: the pointwise image of the grid under the rule.
\<close>

definition next_state :: "Grid \<Rightarrow> int \<Rightarrow> int \<Rightarrow> int" where
  "next_state g i j = (case update_cell g i j of Inl e \<Rightarrow> 0 | Inr v \<Rightarrow> v)"

definition rule_image :: "Grid \<Rightarrow> ndarray" where
  "rule_image g =
     map (\<lambda>i. map (\<lambda>j. next_state g i j) (py_range (width g))) (py_range (height g))"

subsection \<open>Example grids\<close>

definition conway :: "int \<Rightarrow> int \<Rightarrow> ndarray \<Rightarrow> Grid" where
  "conway h w a = \<lparr>clear = True, fps = 60, born = [3], survive = [2, 3],
     neighbourhood_type = ''moore'', width = w, height = h, grid = a\<rparr>"

definition blinker :: Grid where
  "blinker = conway 5 5
     [[0, 0, 0, 0, 0],
      [0, 0, 1, 0, 0],
      [0, 0, 1, 0, 0],
      [0, 0, 1, 0, 0],
      [0, 0, 0, 0, 0]]"

text \<open>A grid as a file with other digits than 0 and 1 leaves it.\<close>

definition from_file :: Grid where
  "from_file = conway 3 4
     [[2, 0, 0, 0],
      [0, 1, - 1, 0],
      [0, 0, 0, 0]]"

subsection \<open>The neighbourhood as the specification describes it\<close>

text \<open>
  The offsets of the neighbours of a cell, the cell itself left out: the four orthogonal
  ones for vonNeumann, the eight surrounding ones for Moore.
\<close>

definition neighbour_offsets :: "string \<Rightarrow> (int \<times> int) list" where
  "neighbour_offsets kind =
     (if kind = ''vonneumann'' then [(0, - 1), (0, 1), (- 1, 0), (1, 0)]
      else [(- 1, - 1), (- 1, 0), (- 1, 1), (0, - 1), (0, 1), (1, - 1), (1, 0), (1, 1)])"

definition neighbours :: "Grid \<Rightarrow> int \<Rightarrow> int \<Rightarrow> (int \<times> int) list" where
  "neighbours g i j =
     map (\<lambda>d. ((i + fst d) mod height g, (j + snd d) mod width g))
       (neighbour_offsets (neighbourhood_type g))"

definition neighbour_values :: "Grid \<Rightarrow> int \<Rightarrow> int \<Rightarrow> int list" where
  "neighbour_values g i j = map (\<lambda>p. at (grid g) (fst p) (snd p)) (neighbours g i j)"

definition centre_value :: "Grid \<Rightarrow> int \<Rightarrow> int \<Rightarrow> int" where
  "centre_value g i j = at (grid g) (i mod height g) (j mod width g)"

text \<open>The positions that \<open>_view\<close> reads, and the values found there.\<close>

definition view_points :: "Grid \<Rightarrow> int \<Rightarrow> int \<Rightarrow> (int \<times> int) list" where
  "view_points g i j =
     (if neighbourhood_type g = ''vonneumann''
      then vonneumann_points (height g) (width g) i j
      else moore_points (height g) (width g) i j)"

definition view_values :: "Grid \<Rightarrow> int \<Rightarrow> int \<Rightarrow> int list" where
  "view_values g i j = map (\<lambda>p. at (grid g) (fst p) (snd p)) (view_points g i j)"

text \<open>A vonNeumann grid with live cells on its border, to see the wrap-around.\<close>

definition corner :: Grid where
  "corner = \<lparr>clear = True, fps = 60, born = [3], survive = [2, 3],
     neighbourhood_type = ''vonneumann'', width = 4, height = 3,
     grid = [[1, 1, 0, 1],
             [0, 0, 0, 0],
             [1, 0, 0, 0]]\<rparr>"

text \<open>A value that one character of the notation can show.\<close>

definition single_digit :: "int \<Rightarrow> bool" where
  "single_digit n = (0 \<le> n \<and> n \<le> 9)"

subsection \<open>Indices that numpy accepts\<close>

definition ok_index :: "nat \<Rightarrow> int \<Rightarrow> bool" where
  "ok_index n k = (- int n \<le> k \<and> k < int n)"

definition wrap_index :: "nat \<Rightarrow> int \<Rightarrow> nat" where
  "wrap_index n k = nat (if k < 0 then k + int n else k)"

definition ok_write :: "nat \<Rightarrow> nat \<Rightarrow> int \<Rightarrow> int \<Rightarrow> int \<times> int \<Rightarrow> bool" where
  "ok_write h w hdiff wdiff p = (ok_index h (fst p + hdiff) \<and> ok_index w (snd p + wdiff))"

text \<open>A grid of 3 by 3, and a pattern of four rows.\<close>

definition small :: Grid where
  "small = conway 3 3 [[0, 0, 0], [0, 0, 0], [0, 0, 0]]"

definition tall :: ndarray where
  "tall = [[1, 1, 1], [0, 1, 0], [0, 0, 0], [1, 0, 1]]"

definition towering :: ndarray where
  "towering = [[1, 1, 1], [1, 1, 1], [1, 1, 1], [1, 1, 1], [1, 1, 1]]"

definition glider :: ndarray where
  "glider = [[0, 1, 0], [0, 0, 1], [1, 1, 1]]"

subsection \<open>Generations\<close>

text \<open>
  The grid after one and after \<open>k\<close> generations, as values; the arrays printed by the
  first \<open>k\<close> steps; and what \<open>run\<close> needs besides the invariant: a positive \<open>fps\<close>.
\<close>

definition advance :: "Grid \<Rightarrow> Grid" where
  "advance g = g\<lparr>grid := rule_image g\<rparr>"

definition generation :: "nat \<Rightarrow> Grid \<Rightarrow> Grid" where
  "generation k g = (advance ^^ k) g"


definition run_ok :: "Grid \<Rightarrow> bool" where
  "run_ok g = (wf_grid g \<and> 0 < fps g)"

definition lonely :: Grid where
  "lonely = conway 3 3 [[0, 0, 0], [0, 1, 0], [0, 0, 0]]"

definition flat :: Grid where
  "flat = conway 5 5
     [[0, 0, 0, 0, 0],
      [0, 0, 0, 0, 0],
      [0, 1, 1, 1, 0],
      [0, 0, 0, 0, 0],
      [0, 0, 0, 0, 0]]"

section \<open>Reading and writing inside the array\<close>

lemma np_mod_range: "0 < m \<Longrightarrow> 0 \<le> np_mod x m \<and> np_mod x m < m"
  by (simp add: np_mod_def)

lemma np_index_in: "0 \<le> k \<Longrightarrow> k < int n \<Longrightarrow> np_index n k = Inr (nat k)"
  by (simp add: np_index_def)

lemma getitem_in:
  "0 \<le> r \<Longrightarrow> r < int (length a) \<Longrightarrow> 0 \<le> c \<Longrightarrow> c < int (length (a ! nat r)) \<Longrightarrow>
   getitem a r c = Inr (at a r c)"
  by (simp add: getitem_def np_index_in at_def)

lemma setitem_in:
  "0 \<le> r \<Longrightarrow> r < int (length a) \<Longrightarrow> 0 \<le> c \<Longrightarrow> c < int (length (a ! nat r)) \<Longrightarrow>
   setitem a r c v = Inr (a[nat r := (a ! nat r)[nat c := v]])"
  by (simp add: setitem_def np_index_in)

lemma has_shape_row: "has_shape h w a \<Longrightarrow> r < h \<Longrightarrow> length (a ! r) = w"
  by (simp add: has_shape_def list_all_length)

lemma getitems_in:
  "has_shape h w a \<Longrightarrow> list_all (in_shape h w) ps \<Longrightarrow>
   getitems a ps = Inr (map (\<lambda>p. at a (fst p) (snd p)) ps)"
proof (induction ps)
  case Nil
  then show ?case by simp
next
  case (Cons p ps)
  obtain r c where p: "p = (r, c)" by (cases p)
  from Cons.prems have rc: "0 \<le> r" "r < int h" "0 \<le> c" "c < int w"
    by (simp_all add: p in_shape_def)
  from Cons.prems(1) rc have "length (a ! nat r) = w"
    by (intro has_shape_row[of h w a]) simp_all
  with rc Cons.prems(1) have "getitem a r c = Inr (at a r c)"
    by (intro getitem_in) (simp_all add: has_shape_def)
  moreover from Cons have "getitems a ps = Inr (map (\<lambda>p. at a (fst p) (snd p)) ps)"
    by simp
  ultimately show ?case by (simp add: p)
qed

section \<open>The neighbourhood of a cell\<close>

lemma moore_points_in:
  "0 < h \<Longrightarrow> 0 < w \<Longrightarrow> list_all (in_shape (nat h) (nat w)) (moore_points h w i j)"
  by (simp add: moore_points_def in_shape_def np_mod_range)

lemma vonneumann_points_in:
  "0 < h \<Longrightarrow> 0 < w \<Longrightarrow> list_all (in_shape (nat h) (nat w)) (vonneumann_points h w i j)"
  by (simp add: vonneumann_points_def in_shape_def np_mod_range)

lemma wf_grid_shape: "wf_grid g \<Longrightarrow> has_shape (nat (height g)) (nat (width g)) (grid g)"
  by (simp add: wf_grid_def has_shape_def)

lemma view_moore:
  assumes "wf_grid g" "neighbourhood_type g = ''moore''"
  shows "view g i j =
     Inr (map (\<lambda>p. at (grid g) (fst p) (snd p)) (moore_points (height g) (width g) i j),
          at (grid g) (np_mod i (height g)) (np_mod j (width g)))"
proof -
  from assms(1) have pos: "0 < height g" "0 < width g" by (simp_all add: wf_grid_def)
  have "getitems (grid g) (moore_points (height g) (width g) i j) =
        Inr (map (\<lambda>p. at (grid g) (fst p) (snd p)) (moore_points (height g) (width g) i j))"
    by (rule getitems_in[OF wf_grid_shape[OF assms(1)] moore_points_in[OF pos]])
  then show ?thesis
    by (simp add: view_def assms(2)) (simp add: moore_points_def)
qed

lemma view_vonneumann:
  assumes "wf_grid g" "neighbourhood_type g = ''vonneumann''"
  shows "view g i j =
     Inr (map (\<lambda>p. at (grid g) (fst p) (snd p)) (vonneumann_points (height g) (width g) i j),
          at (grid g) (np_mod i (height g)) (np_mod j (width g)))"
proof -
  from assms(1) have pos: "0 < height g" "0 < width g" by (simp_all add: wf_grid_def)
  have "getitems (grid g) (vonneumann_points (height g) (width g) i j) =
        Inr (map (\<lambda>p. at (grid g) (fst p) (snd p)) (vonneumann_points (height g) (width g) i j))"
    by (rule getitems_in[OF wf_grid_shape[OF assms(1)] vonneumann_points_in[OF pos]])
  then show ?thesis
    by (simp add: view_def assms(2)) (simp add: vonneumann_points_def)
qed

lemma view_total: "wf_grid g \<Longrightarrow> \<exists>v c. view g i j = Inr (v, c)"
  using view_moore[of g i j] view_vonneumann[of g i j] by (auto simp: wf_grid_def)

lemma apply_rules_bit: "apply_rules g c n = 0 \<or> apply_rules g c n = 1"
  by (simp add: apply_rules_def)

lemma update_cell_total: "wf_grid g \<Longrightarrow> \<exists>v. update_cell g i j = Inr v \<and> (v = 0 \<or> v = 1)"
  using view_total[of g i j] apply_rules_bit by (auto simp: update_cell_def)

section \<open>One generation\<close>

lemma update_cell_next_state: "wf_grid g \<Longrightarrow> update_cell g i j = Inr (next_state g i j)"
  using update_cell_total[of g i j] by (auto simp: next_state_def)

lemma nth_setitem:
  "r < length a \<Longrightarrow> c < length (a ! r) \<Longrightarrow> i < length a \<Longrightarrow>
   (a[r := (a ! r)[c := v]]) ! i ! j = (if i = r \<and> j = c then v else a ! i ! j)"
  by (simp add: nth_list_update)

lemma has_shape_setitem:
  "has_shape h w a \<Longrightarrow> r < h \<Longrightarrow> has_shape h w (a[r := (a ! r)[c := v]])"
  by (auto simp: has_shape_def list_all_length nth_list_update)

lemma update_cells_writes:
  assumes "wf_grid g" "has_shape h w tok" "list_all (in_shape h w) cs"
  shows "\<exists>tok'. update_cells g cs tok = Inr tok' \<and> has_shape h w tok' \<and>
           (\<forall>i<h. \<forall>j<w. tok' ! i ! j =
              (if (int i, int j) \<in> set cs then next_state g (int i) (int j) else tok ! i ! j))"
  using assms(2,3)
proof (induction cs arbitrary: tok)
  case Nil
  then show ?case by simp
next
  case (Cons p cs)
  obtain r c where p: "p = (r, c)" by (cases p)
  from Cons.prems have rc: "0 \<le> r" "r < int h" "0 \<le> c" "c < int w"
    by (simp_all add: p in_shape_def)
  let ?v = "next_state g r c"
  let ?tok = "tok[nat r := (tok ! nat r)[nat c := ?v]]"
  from rc have nr: "nat r < h" and nc: "nat c < w" by simp_all
  have len: "length tok = h" using Cons.prems(1) by (simp add: has_shape_def)
  have row: "length (tok ! nat r) = w" using has_shape_row[OF Cons.prems(1) nr] .
  have set: "setitem tok r c ?v = Inr ?tok"
    using rc len row by (intro setitem_in) simp_all
  have shape: "has_shape h w ?tok" using has_shape_setitem[OF Cons.prems(1) nr] .
  from Cons.prems(2) have rest: "list_all (in_shape h w) cs" by simp
  from Cons.IH[OF shape rest] obtain tok' where
    run: "update_cells g cs ?tok = Inr tok'" and sh: "has_shape h w tok'" and
    vals: "\<forall>i<h. \<forall>j<w. tok' ! i ! j =
              (if (int i, int j) \<in> set cs then next_state g (int i) (int j) else ?tok ! i ! j)"
    by blast
  have "update_cells g (p # cs) tok = Inr tok'"
    by (simp add: p update_cell_next_state[OF assms(1)] set run)
  moreover have "\<forall>i<h. \<forall>j<w. tok' ! i ! j =
      (if (int i, int j) \<in> set (p # cs) then next_state g (int i) (int j) else tok ! i ! j)"
  proof (intro allI impI)
    fix i j assume ij: "i < h" "j < w"
    have "?tok ! i ! j = (if i = nat r \<and> j = nat c then ?v else tok ! i ! j)"
      using nr nc ij len row by (intro nth_setitem) simp_all
    moreover have "(int i = r \<and> int j = c) = (i = nat r \<and> j = nat c)"
      using rc by auto
    ultimately show "tok' ! i ! j =
      (if (int i, int j) \<in> set (p # cs) then next_state g (int i) (int j) else tok ! i ! j)"
      using vals ij by (auto simp: p)
  qed
  ultimately show ?case using sh by blast
qed

lemma coords_in: "list_all (in_shape (nat h) (nat w)) (coords h w)"
  by (auto simp: coords_def py_range_def list_all_iff in_shape_def)

lemma coords_mem: "i < nat h \<Longrightarrow> j < nat w \<Longrightarrow> (int i, int j) \<in> set (coords h w)"
  by (force simp: coords_def py_range_def)

lemma has_shape_rule_image: "has_shape (nat (height g)) (nat (width g)) (rule_image g)"
  by (simp add: has_shape_def rule_image_def py_range_def list_all_iff)

lemma rule_image_nth:
  "i < nat (height g) \<Longrightarrow> j < nat (width g) \<Longrightarrow>
   rule_image g ! i ! j = next_state g (int i) (int j)"
  by (simp add: rule_image_def py_range_def)

lemma has_shape_eqI:
  assumes "has_shape h w a" "has_shape h w b" "\<forall>i<h. \<forall>j<w. a ! i ! j = b ! i ! j"
  shows "a = b"
proof (rule nth_equalityI)
  show "length a = length b" using assms by (simp add: has_shape_def)
next
  fix i assume "i < length a"
  then have i: "i < h" using assms(1) by (simp add: has_shape_def)
  show "a ! i = b ! i"
  proof (rule nth_equalityI)
    show "length (a ! i) = length (b ! i)"
      using has_shape_row[OF assms(1) i] has_shape_row[OF assms(2) i] by simp
  next
    fix j assume "j < length (a ! i)"
    then have "j < w" using has_shape_row[OF assms(1) i] by simp
    with i assms(3) show "a ! i ! j = b ! i ! j" by simp
  qed
qed

lemma update_cells_all:
  assumes "wf_grid g" "has_shape (nat (height g)) (nat (width g)) tok"
    "list_all (in_shape (nat (height g)) (nat (width g))) cs"
    "set (coords (height g) (width g)) \<subseteq> set cs"
  shows "update_cells g cs tok = Inr (rule_image g)"
proof -
  from update_cells_writes[OF assms(1,2,3)] obtain tok' where
    run: "update_cells g cs tok = Inr tok'" and
    sh: "has_shape (nat (height g)) (nat (width g)) tok'" and
    vals: "\<forall>i<nat (height g). \<forall>j<nat (width g). tok' ! i ! j =
              (if (int i, int j) \<in> set cs then next_state g (int i) (int j) else tok ! i ! j)"
    by blast
  have "tok' = rule_image g"
  proof (rule has_shape_eqI[OF sh has_shape_rule_image], intro allI impI)
    fix i j assume ij: "i < nat (height g)" "j < nat (width g)"
    then have "(int i, int j) \<in> set cs" using coords_mem assms(4) by blast
    with vals ij show "tok' ! i ! j = rule_image g ! i ! j" by (simp add: rule_image_nth)
  qed
  with run show ?thesis by simp
qed

lemma has_shape_empty_like: "has_shape h w a \<Longrightarrow> has_shape h w (np_empty_like a)"
  by (simp add: has_shape_def np_empty_like_def list_all_iff)

lemma update_grid_image: "wf_grid g \<Longrightarrow> update_grid g = Inr (g\<lparr>grid := rule_image g\<rparr>)"
  using update_cells_all[OF _ has_shape_empty_like[OF wf_grid_shape] coords_in, of g]
  by (simp add: update_grid_def)

lemma wf_grid_update: "wf_grid g \<Longrightarrow> wf_grid (g\<lparr>grid := rule_image g\<rparr>)"
  using has_shape_rule_image[of g] by (simp add: wf_grid_def has_shape_def)

text \<open>The blinker turns from upright to flat in one generation, as it should.\<close>

lemma blinker_step:
  "update_grid blinker = Inr (blinker\<lparr>grid :=
     [[0, 0, 0, 0, 0],
      [0, 0, 0, 0, 0],
      [0, 1, 1, 1, 0],
      [0, 0, 0, 0, 0],
      [0, 0, 0, 0, 0]]\<rparr>)"
  by code_simp

lemma next_state_bit: "next_state g i j = 0 \<or> next_state g i j = 1"
  using apply_rules_bit
  by (auto simp: next_state_def update_cell_def split: sum.splits prod.splits)

lemma rule_image_bits: "list_all (list_all (\<lambda>x. x = 0 \<or> x = 1)) (rule_image g)"
  by (simp add: rule_image_def list_all_iff next_state_bit)

text \<open>
  Claim C10. After \<open>update_grid\<close> every cell is 0 or 1, whatever whole numbers the
  cells held before the call: each entry of the new array is a result of
  \<open>_update_cell\<close>, which returns nothing but 0 and 1.
\<close>

theorem update_grid_cells_binary:
  assumes "wf_grid g"
  shows "\<exists>g'. update_grid g = Inr g' \<and>
           has_shape (nat (height g)) (nat (width g)) (grid g') \<and>
           list_all (list_all (\<lambda>x. x = 0 \<or> x = 1)) (grid g')"
  using update_grid_image[OF assms] has_shape_rule_image[of g] rule_image_bits[of g]
  by simp

theorem update_grid_cells_binary_witness:
  "wf_grid from_file \<and>
   (\<exists>g'. update_grid from_file = Inr g' \<and>
      has_shape 3 4 (grid g') \<and>
      list_all (list_all (\<lambda>x. x = 0 \<or> x = 1)) (grid g'))"
proof -
  have wf: "wf_grid from_file" by (simp add: wf_grid_def from_file_def conway_def)
  have hw: "height from_file = 3" "width from_file = 4"
    by (simp_all add: from_file_def conway_def)
  from update_grid_cells_binary[OF wf] wf show ?thesis by (simp add: hw)
qed

lemma from_file_step:
  "update_grid from_file = Inr (from_file\<lparr>grid :=
     [[0, 1, 0, 0],
      [0, 1, 0, 0],
      [0, 1, 0, 0]]\<rparr>)"
  by code_simp

section \<open>The rule\<close>

text \<open>
  Claim C2. The rule of \<open>_update_cell\<close>: a dead cell (0) becomes alive (1) exactly when
  its count of live neighbours is in \<open>born\<close>, a live cell (1) stays alive exactly when
  the count is in \<open>survive\<close>, and every other case gives a dead cell. \<open>_update_cell\<close>
  returns this function of the cell's value and of the count
  \<open>count_nonzero view - cell_value\<close>.
\<close>

theorem update_cell_rule:
  "apply_rules g 0 n = (if n \<in> set (born g) then 1 else 0) \<and>
   apply_rules g 1 n = (if n \<in> set (survive g) then 1 else 0) \<and>
   (s \<noteq> 0 \<and> s \<noteq> 1 \<longrightarrow> apply_rules g s n = 0) \<and>
   (view g i j = Inr (v, s) \<longrightarrow>
      update_cell g i j = Inr (apply_rules g s (count_nonzero v - s)))"
  by (simp add: apply_rules_def update_cell_def)

theorem update_cell_rule_witness:
  "view blinker 2 2 = Inr ([0, 1, 0, 0, 1, 0, 0, 1, 0], 1) \<and>
   update_cell blinker 2 2 = Inr 1 \<and>
   apply_rules blinker 1 2 = 1 \<and>
   apply_rules blinker 0 2 = 0 \<and>
   apply_rules blinker 7 3 = 0"
proof -
  have v: "view blinker 2 2 = Inr ([0, 1, 0, 0, 1, 0, 0, 1, 0], 1)" by code_simp
  have b: "born blinker = [3]" "survive blinker = [2, 3]"
    by (simp_all add: blinker_def conway_def)
  have n: "count_nonzero [0, 1, 0, 0, 1, 0, 0, 1, 0] - 1 = 2" by (simp add: count_nonzero_def)
  have r: "apply_rules blinker 1 2 = 1 \<and> apply_rules blinker 0 2 = 0 \<and>
           apply_rules blinker 7 3 = 0"
    using update_cell_rule[of blinker 2 7 3] update_cell_rule[of blinker 3 7 2] by (simp add: b)
  have "update_cell blinker 2 2 = Inr (apply_rules blinker 1 2)"
    using update_cell_rule[of blinker 0 1 2 2 "[0, 1, 0, 0, 1, 0, 0, 1, 0]"] v n by simp
  with v r show ?thesis by simp
qed

lemma view_points_in:
  "wf_grid g \<Longrightarrow> list_all (in_shape (nat (height g)) (nat (width g))) (view_points g i j)"
  by (simp add: view_points_def wf_grid_def moore_points_in vonneumann_points_in)

lemma view_reads:
  assumes "wf_grid g"
  shows "view g i j = Inr (view_values g i j, centre_value g i j)"
proof -
  from assms have pos: "0 < height g" "0 < width g" by (simp_all add: wf_grid_def)
  then have c: "centre_value g i j = at (grid g) (np_mod i (height g)) (np_mod j (width g))"
    by (simp add: centre_value_def np_mod_def)
  from assms consider "neighbourhood_type g = ''moore''" | "neighbourhood_type g = ''vonneumann''"
    by (auto simp: wf_grid_def)
  then show ?thesis
  proof cases
    case 1
    then show ?thesis using view_moore[OF assms 1, of i j] c
      by (simp add: view_values_def view_points_def)
  next
    case 2
    then show ?thesis using view_vonneumann[OF assms 2, of i j] c
      by (simp add: view_values_def view_points_def)
  qed
qed

text \<open>The view holds the neighbours and the cell; the cell adds one to the count unless it is 0.\<close>

lemma count_view:
  assumes "wf_grid g"
  shows "count_nonzero (view_values g i j) =
         count_nonzero (neighbour_values g i j) + (if centre_value g i j = 0 then 0 else 1)"
proof -
  from assms have pos: "height g \<noteq> 0" "width g \<noteq> 0" by (simp_all add: wf_grid_def)
  from assms consider "neighbourhood_type g = ''moore''" | "neighbourhood_type g = ''vonneumann''"
    by (auto simp: wf_grid_def)
  then show ?thesis
  proof cases
    case 1
    then show ?thesis
      by (simp add: view_values_def view_points_def moore_points_def neighbour_values_def
          neighbours_def neighbour_offsets_def centre_value_def count_nonzero_def np_mod_def pos)
  next
    case 2
    then show ?thesis
      by (simp add: view_values_def view_points_def vonneumann_points_def neighbour_values_def
          neighbours_def neighbour_offsets_def centre_value_def count_nonzero_def np_mod_def pos)
  qed
qed

lemma apply_rules_count:
  "apply_rules g c (n + (if c = 0 then 0 else 1) - c) = apply_rules g c n"
  by (auto simp: apply_rules_def)

text \<open>
  Claim C3. On every grid that satisfies the invariant, for every pair of integers
  \<open>(i, j)\<close> and for both neighbourhood types, \<open>_view\<close> reads only positions inside
  \<open>[0, height) \<times> [0, width)\<close> and returns; and the next state of the cell is the rule
  applied to the value of the cell and to the number of non-zero cells among its
  neighbours, the cell itself left out. For a cell that holds 0 or 1 this number is the
  value of \<open>neighbour_alive_count\<close>; a cell that holds anything else is dead in the next
  generation whatever the count.
\<close>

theorem view_in_bounds_centre_excluded:
  assumes "wf_grid g"
  shows "list_all (in_shape (nat (height g)) (nat (width g))) (view_points g i j) \<and>
         view g i j = Inr (view_values g i j, centre_value g i j) \<and>
         update_cell g i j =
           Inr (apply_rules g (centre_value g i j) (count_nonzero (neighbour_values g i j))) \<and>
         (centre_value g i j = 0 \<or> centre_value g i j = 1 \<longrightarrow>
            neighbour_alive_count g i j = Inr (count_nonzero (neighbour_values g i j)))"
proof (intro conjI impI)
  show "list_all (in_shape (nat (height g)) (nat (width g))) (view_points g i j)"
    by (rule view_points_in[OF assms])
  show "view g i j = Inr (view_values g i j, centre_value g i j)"
    by (rule view_reads[OF assms])
  show "update_cell g i j =
           Inr (apply_rules g (centre_value g i j) (count_nonzero (neighbour_values g i j)))"
    by (simp add: update_cell_def view_reads[OF assms] count_view[OF assms] apply_rules_count)
  assume "centre_value g i j = 0 \<or> centre_value g i j = 1"
  then show "neighbour_alive_count g i j = Inr (count_nonzero (neighbour_values g i j))"
    by (auto simp: neighbour_alive_count_def view_reads[OF assms] count_view[OF assms])
qed

theorem view_in_bounds_centre_excluded_witness:
  "wf_grid corner \<and>
   view_points corner 0 0 = [(0, 3), (0, 0), (0, 1), (2, 0), (1, 0)] \<and>
   list_all (in_shape 3 4) (view_points corner 0 0) \<and>
   view corner 0 0 = Inr ([1, 1, 1, 1, 0], 1) \<and>
   neighbour_values corner 0 0 = [1, 1, 1, 0] \<and>
   neighbour_alive_count corner 0 0 = Inr 3 \<and>
   update_cell corner 0 0 = Inr 1"
proof -
  have wf: "wf_grid corner" by (simp add: wf_grid_def corner_def)
  have hw: "height corner = 3" "width corner = 4" by (simp_all add: corner_def)
  have p: "view_points corner 0 0 = [(0, 3), (0, 0), (0, 1), (2, 0), (1, 0)]" by code_simp
  have v: "view_values corner 0 0 = [1, 1, 1, 1, 0]" by code_simp
  have c: "centre_value corner 0 0 = 1" by code_simp
  have n: "neighbour_values corner 0 0 = [1, 1, 1, 0]" by code_simp
  have k: "count_nonzero [1, 1, 1, 0] = 3" by (simp add: count_nonzero_def)
  have r: "apply_rules corner 1 3 = 1" by (simp add: apply_rules_def corner_def)
  from view_in_bounds_centre_excluded[OF wf, of 0 0] wf p show ?thesis
    by (simp add: hw v c n k r)
qed

text \<open>
  Where the cell holds 2, the subtraction in \<open>_update_cell\<close> takes 2 from the count;
  the result of the update does not depend on it.
\<close>

lemma from_file_count:
  "centre_value from_file 0 0 = 2 \<and>
   neighbour_alive_count from_file 0 0 = Inr 0 \<and>
   count_nonzero (neighbour_values from_file 0 0) = 1 \<and>
   update_cell from_file 0 0 = Inr 0"
  by code_simp

section \<open>One generation, cell by cell\<close>

lemma update_cell_neighbours:
  assumes "wf_grid g"
  shows "update_cell g i j =
           Inr (apply_rules g (centre_value g i j) (count_nonzero (neighbour_values g i j)))"
  by (simp add: update_cell_def view_reads[OF assms] count_view[OF assms] apply_rules_count)

lemma centre_value_inside:
  "0 \<le> i \<Longrightarrow> i < height g \<Longrightarrow> 0 \<le> j \<Longrightarrow> j < width g \<Longrightarrow>
   centre_value g i j = at (grid g) i j"
  by (simp add: centre_value_def)

lemma rule_image_at:
  assumes "wf_grid g" "0 \<le> i" "i < height g" "0 \<le> j" "j < width g"
  shows "at (rule_image g) i j =
           apply_rules g (at (grid g) i j) (count_nonzero (neighbour_values g i j))"
proof -
  have "at (rule_image g) i j = next_state g i j"
    using assms(2-5) rule_image_nth[of "nat i" g "nat j"] by (simp add: at_def)
  also have "\<dots> = apply_rules g (centre_value g i j) (count_nonzero (neighbour_values g i j))"
    by (simp add: next_state_def update_cell_neighbours[OF assms(1)])
  finally show ?thesis using assms(2-5) by (simp add: centre_value_inside)
qed

text \<open>
  Claim C1. On a grid that satisfies the invariant, \<open>update_grid\<close> returns, and the
  array of the new grid has at every coordinate \<open>(i, j)\<close> the result of the rule on the
  old grid: 1 if the old cell is 0 and the number of its non-zero neighbours in the old
  grid is in \<open>born\<close>, 1 if the old cell is 1 and that number is in \<open>survive\<close>, and 0
  otherwise. Nothing else of the object changes. Every cell is computed from the old
  grid, never from the buffer being filled, and the buffer replaces the array in one
  assignment at the end: the loop gives this same array for every content the fresh
  buffer may have and for every order in which the coordinates are visited.
\<close>

theorem update_grid_pointwise:
  assumes "wf_grid g"
  shows "update_grid g = Inr (g\<lparr>grid := rule_image g\<rparr>) \<and>
         has_shape (nat (height g)) (nat (width g)) (rule_image g) \<and>
         (\<forall>i j. 0 \<le> i \<and> i < height g \<and> 0 \<le> j \<and> j < width g \<longrightarrow>
            at (rule_image g) i j =
              (if at (grid g) i j = 0 \<and>
                  count_nonzero (neighbour_values g i j) \<in> set (born g) then 1
               else if at (grid g) i j = 1 \<and>
                  count_nonzero (neighbour_values g i j) \<in> set (survive g) then 1
               else 0)) \<and>
         (\<forall>i j. 0 \<le> i \<and> i < height g \<and> 0 \<le> j \<and> j < width g \<longrightarrow>
            update_cell g i j = Inr (at (rule_image g) i j)) \<and>
         (\<forall>cs tok. has_shape (nat (height g)) (nat (width g)) tok \<and>
                   set cs = set (coords (height g) (width g)) \<longrightarrow>
                   update_cells g cs tok = Inr (rule_image g))"
proof (intro conjI allI impI)
  show "update_grid g = Inr (g\<lparr>grid := rule_image g\<rparr>)"
    by (rule update_grid_image[OF assms])
next
  show "has_shape (nat (height g)) (nat (width g)) (rule_image g)"
    by (rule has_shape_rule_image)
next
  fix i j assume "0 \<le> i \<and> i < height g \<and> 0 \<le> j \<and> j < width g"
  then have "at (rule_image g) i j =
      apply_rules g (at (grid g) i j) (count_nonzero (neighbour_values g i j))"
    by (intro rule_image_at[OF assms]) simp_all
  then show "at (rule_image g) i j =
              (if at (grid g) i j = 0 \<and>
                  count_nonzero (neighbour_values g i j) \<in> set (born g) then 1
               else if at (grid g) i j = 1 \<and>
                  count_nonzero (neighbour_values g i j) \<in> set (survive g) then 1
               else 0)"
    by (simp add: apply_rules_def)
next
  fix i j assume b: "0 \<le> i \<and> i < height g \<and> 0 \<le> j \<and> j < width g"
  then have "at (rule_image g) i j = next_state g i j"
    using rule_image_nth[of "nat i" g "nat j"] by (simp add: at_def)
  then show "update_cell g i j = Inr (at (rule_image g) i j)"
    by (simp add: update_cell_next_state[OF assms])
next
  fix cs tok
  assume a: "has_shape (nat (height g)) (nat (width g)) tok \<and>
             set cs = set (coords (height g) (width g))"
  then have "list_all (in_shape (nat (height g)) (nat (width g))) cs"
    using coords_in[of "height g" "width g"] by (simp add: list_all_iff)
  with a show "update_cells g cs tok = Inr (rule_image g)"
    by (intro update_cells_all[OF assms]) simp_all
qed

theorem update_grid_pointwise_witness:
  "wf_grid blinker \<and>
   update_grid blinker = Inr (blinker\<lparr>grid :=
     [[0, 0, 0, 0, 0],
      [0, 0, 0, 0, 0],
      [0, 1, 1, 1, 0],
      [0, 0, 0, 0, 0],
      [0, 0, 0, 0, 0]]\<rparr>) \<and>
   at (grid blinker) 2 1 = 0 \<and>
   neighbour_values blinker 2 1 = [0, 0, 1, 0, 1, 0, 0, 1] \<and>
   update_cell blinker 2 1 = Inr 1 \<and>
   update_cells blinker (rev (coords 5 5)) (np_zeros 5 5) = Inr
     [[0, 0, 0, 0, 0],
      [0, 0, 0, 0, 0],
      [0, 1, 1, 1, 0],
      [0, 0, 0, 0, 0],
      [0, 0, 0, 0, 0]]"
proof -
  have wf: "wf_grid blinker" by (simp add: wf_grid_def blinker_def conway_def)
  have hw: "height blinker = 5" "width blinker = 5" by (simp_all add: blinker_def conway_def)
  have rules: "born blinker = [3]" "survive blinker = [2, 3]"
    by (simp_all add: blinker_def conway_def)
  have sh: "has_shape (nat 5) (nat 5) (np_zeros 5 5)"
    by (simp add: has_shape_def np_zeros_def list_all_iff)
  have c: "at (grid blinker) 2 1 = 0" by code_simp
  have n: "neighbour_values blinker 2 1 = [0, 0, 1, 0, 1, 0, 0, 1]" by code_simp
  have k: "count_nonzero [0, 0, 1, 0, 1, 0, 0, 1] = 3" by (simp add: count_nonzero_def)
  have img: "rule_image blinker =
     [[0, 0, 0, 0, 0],
      [0, 0, 0, 0, 0],
      [0, 1, 1, 1, 0],
      [0, 0, 0, 0, 0],
      [0, 0, 0, 0, 0]]"
    by code_simp
  note main = update_grid_pointwise[OF wf]
  have inside: "(0::int) \<le> 2 \<and> 2 < height blinker \<and> (0::int) \<le> 1 \<and> 1 < width blinker"
    by (simp add: hw)
  from main inside have "at (rule_image blinker) 2 1 =
      (if at (grid blinker) 2 1 = 0 \<and>
          count_nonzero (neighbour_values blinker 2 1) \<in> set (born blinker) then 1
       else if at (grid blinker) 2 1 = 1 \<and>
          count_nonzero (neighbour_values blinker 2 1) \<in> set (survive blinker) then 1
       else 0)"
    by blast
  then have one: "at (rule_image blinker) 2 1 = 1" by (simp add: c n k rules)
  from main inside have "update_cell blinker 2 1 = Inr (at (rule_image blinker) 2 1)" by blast
  with one have cell: "update_cell blinker 2 1 = Inr 1" by simp
  have "update_cells blinker (rev (coords 5 5)) (np_zeros 5 5) = Inr (rule_image blinker)"
    using main sh by (simp add: hw)
  moreover from main have "update_grid blinker = Inr (blinker\<lparr>grid := rule_image blinker\<rparr>)"
    by blast
  ultimately show ?thesis using wf c n cell by (simp add: img)
qed

section \<open>Construction\<close>

lemma lower_Moore: "lower ''Moore'' = ''moore''"
  by code_simp

lemma init_defaults:
  "and_then (set_clear_terminal (IsBool True) unset) (\<lambda>g1.
   and_then (set_rules (PyList [3]) (PyList [2, 3]) (set_fps 60 g1)) (\<lambda>g2.
     set_neighbourhood_type (PyStr ''Moore'') g2)) = Inr (conway 0 0 [])"
  by (simp add: set_clear_terminal_def set_rules_def rule_list_def set_fps_def and_then_def
      unset_def set_neighbourhood_type_def lower_Moore conway_def)

text \<open>The test of \<open>__init__\<close> runs on the default rules, which pass it.\<close>

lemma incompatible_defaults: "incompatible (conway h w a) = Inr False"
  by (simp add: incompatible_def over_def py_max_def and_then_def conway_def)

lemma has_shape_zeros: "has_shape (nat h) (nat w) (np_zeros h w)"
  by (simp add: has_shape_def np_zeros_def list_all_iff)

lemma zeros_all_dead: "list_all (list_all (\<lambda>x. x = 0)) (np_zeros h w)"
  by (simp add: np_zeros_def list_all_iff)

lemma init_result:
  "init terminal_size drawn (Some w) (Some h) None False =
     (if w < 5 \<or> h < 5 then Inl SystemExit
      else Inr (conway (h - 2) (w - 2) (np_zeros (h - 2) (w - 2))))"
proof -
  have "init terminal_size drawn (Some w) (Some h) None False =
     and_then (Inr (conway 0 0 [])) (\<lambda>g3.
     and_then (incompatible g3) (\<lambda>bad.
       if bad then Inl ValueError
       else if w < 5 \<or> h < 5 then Inl SystemExit
            else Inr (g3\<lparr>width := w - 2, height := h - 2, grid := np_zeros (h - 2) (w - 2)\<rparr>)))"
    unfolding init_defaults[symmetric] by (simp add: init_def and_then_def split: sum.splits)
  also have "\<dots> = (if w < 5 \<or> h < 5 then Inl SystemExit
      else Inr (conway (h - 2) (w - 2) (np_zeros (h - 2) (w - 2))))"
    by (simp add: and_then_def incompatible_defaults) (simp add: conway_def)
  finally show ?thesis .
qed

text \<open>
  Claim C7, as the code has it. With an explicit width and height, no file and
  \<open>random = False\<close>, \<open>__init__\<close> exits when the width or the height is below 5;
  otherwise it gives the default configuration and an all-dead grid of
  \<open>height - 2\<close> rows and \<open>width - 2\<close> columns: two are taken off each for the border.
\<close>

theorem init_explicit_size:
  "init terminal_size drawn (Some w) (Some h) None False =
     (if w < 5 \<or> h < 5 then Inl SystemExit
      else Inr (conway (h - 2) (w - 2) (np_zeros (h - 2) (w - 2)))) \<and>
   has_shape (nat (h - 2)) (nat (w - 2)) (np_zeros (h - 2) (w - 2)) \<and>
   list_all (list_all (\<lambda>x. x = 0)) (np_zeros (h - 2) (w - 2))"
  by (simp add: init_result has_shape_zeros zeros_all_dead)

text \<open>
  The claim as written fails: asked for 5 by 5, the constructor makes a grid of 3 by 3.
\<close>

theorem init_size_counterexample:
  "init (80, 24) [] (Some 5) (Some 5) None False =
     Inr (conway 3 3 [[0, 0, 0], [0, 0, 0], [0, 0, 0]]) \<and>
   shape [[0, 0, 0], [0, 0, 0], [0, 0, 0]] = (3, 3) \<and>
   shape [[0, 0, 0], [0, 0, 0], [0, 0, 0]] \<noteq> (5, 5)"
  by code_simp

lemma init_establishes_invariant:
  assumes "5 \<le> w" "5 \<le> h"
  shows "\<exists>g. init terminal_size drawn (Some w) (Some h) None False = Inr g \<and> wf_grid g"
proof -
  have "wf_grid (conway (h - 2) (w - 2) (np_zeros (h - 2) (w - 2)))"
    using assms has_shape_zeros[of "h - 2" "w - 2"]
    by (simp add: wf_grid_def conway_def has_shape_def)
  then show ?thesis using assms init_result[of terminal_size drawn w h] by simp
qed

section \<open>The rules and their notation\<close>

lemma str_int_digit: "single_digit n \<Longrightarrow> str_int n = [digit_char (nat n)]"
proof -
  assume "single_digit n"
  then have "0 \<le> n" "nat n < 10" by (auto simp: single_digit_def)
  then show ?thesis by (simp add: str_int_def)
qed

lemma concat_str_int:
  "list_all single_digit xs \<Longrightarrow> concat (map str_int xs) = map (\<lambda>n. digit_char (nat n)) xs"
  by (induction xs) (simp_all add: str_int_digit)

text \<open>
  Claim C8, as the code has it. For rules whose values are single digits,
  \<open>get_rules\<close> returns \<open>B\<close>, one digit for each value of \<open>born\<close>, \<open>/S\<close>, and one digit
  for each value of \<open>survive\<close>, each group in the order of the stored list; nothing is
  sorted. For \<open>born = [3]\<close> and \<open>survive = [2, 3]\<close> the result is \<open>B3/S23\<close>.
\<close>

theorem get_rules_notation:
  assumes "list_all single_digit (born g)" "list_all single_digit (survive g)"
  shows "get_rules g =
           ''B'' @ map (\<lambda>n. digit_char (nat n)) (born g) @
           ''/S'' @ map (\<lambda>n. digit_char (nat n)) (survive g) \<and>
         (born g = [3] \<and> survive g = [2, 3] \<longrightarrow> get_rules g = ''B3/S23'')"
proof
  show "get_rules g =
           ''B'' @ map (\<lambda>n. digit_char (nat n)) (born g) @
           ''/S'' @ map (\<lambda>n. digit_char (nat n)) (survive g)"
    by (simp add: get_rules_def concat_str_int[OF assms(1)] concat_str_int[OF assms(2)])
  show "born g = [3] \<and> survive g = [2, 3] \<longrightarrow> get_rules g = ''B3/S23''"
    by (simp add: get_rules_def str_int_def digit_char_def)
qed

theorem get_rules_notation_witness:
  "list_all single_digit (born blinker) \<and> list_all single_digit (survive blinker) \<and>
   born blinker = [3] \<and> survive blinker = [2, 3] \<and>
   get_rules blinker = ''B3/S23''"
proof -
  have b: "born blinker = [3]" "survive blinker = [2, 3]"
    by (simp_all add: blinker_def conway_def)
  have d: "list_all single_digit (born blinker)" "list_all single_digit (survive blinker)"
    by (simp_all add: b single_digit_def)
  from get_rules_notation[OF d, THEN conjunct2] b d show ?thesis by simp
qed

text \<open>
  The claim as written fails: rules set with \<open>survive = [3, 2]\<close> are shown as \<open>S32\<close>,
  not in ascending order.
\<close>

theorem get_rules_sorted_counterexample:
  "set_rules (PyList [3]) (PyList [3, 2]) blinker =
     Inr (blinker\<lparr>born := [3], survive := [3, 2]\<rparr>) \<and>
   get_rules (blinker\<lparr>born := [3], survive := [3, 2]\<rparr>) = ''B3/S32'' \<and>
   get_rules (blinker\<lparr>born := [3], survive := [3, 2]\<rparr>) \<noteq> ''B3/S23''"
  by (simp add: set_rules_def rule_list_def and_then_def get_rules_def str_int_def digit_char_def)

text \<open>\<open>set_rules\<close> stores every pair of lists; its only error is the type error.\<close>

lemma set_rules_lists:
  "set_rules (PyList bs) (PyList ss) g = Inr (g\<lparr>born := bs, survive := ss\<rparr>)"
  by (simp add: set_rules_def rule_list_def and_then_def)

lemma set_rules_error: "set_rules b s g = Inl e \<Longrightarrow> e = TypeError"
  by (auto simp: set_rules_def rule_list_def and_then_def split: pyval.splits)

lemma set_neighbourhood_type_keeps_rules:
  "set_neighbourhood_type v g = Inr g' \<Longrightarrow> born g' = born g \<and> survive g' = survive g"
  by (auto simp: set_neighbourhood_type_def split: pyval.splits if_splits)

text \<open>
  Claim C4 on the code. After construction, \<open>set_rules\<close> with \<open>survive = [9]\<close> under the
  Moore neighbourhood returns without an error, and so does \<open>set_rules\<close> with
  \<open>born = [5]\<close> after \<open>set_neighbourhood_type('vonNeumann')\<close>. The test that
  \<open>__init__\<close> applies to its defaults would have refused both: it gives \<open>True\<close> on
  the two resulting objects. The next generation is then computed without an error.
\<close>

theorem set_rules_accepts_incompatible:
  "and_then (init (80, 24) [] (Some 7) (Some 7) None False)
     (set_rules (PyList [3]) (PyList [9])) =
     Inr ((conway 5 5 (np_zeros 5 5))\<lparr>survive := [9]\<rparr>) \<and>
   incompatible ((conway 5 5 (np_zeros 5 5))\<lparr>survive := [9]\<rparr>) = Inr True \<and>
   update_grid ((conway 5 5 (np_zeros 5 5))\<lparr>survive := [9]\<rparr>) =
     Inr ((conway 5 5 (np_zeros 5 5))\<lparr>survive := [9]\<rparr>) \<and>
   and_then (init (80, 24) [] (Some 7) (Some 7) None False) (\<lambda>g.
     and_then (set_neighbourhood_type (PyStr ''vonNeumann'') g)
       (set_rules (PyList [5]) (PyList [2, 3]))) =
     Inr ((conway 5 5 (np_zeros 5 5))\<lparr>born := [5], neighbourhood_type := ''vonneumann''\<rparr>) \<and>
   incompatible ((conway 5 5 (np_zeros 5 5))\<lparr>born := [5], neighbourhood_type := ''vonneumann''\<rparr>) =
     Inr True"
  by code_simp

section \<open>Seeding a pattern\<close>

lemma np_index_cases:
  "np_index n k = (if ok_index n k then Inr (wrap_index n k) else Inl IndexError)"
  by (auto simp: np_index_def ok_index_def wrap_index_def)

lemma wrap_index_less: "ok_index n k \<Longrightarrow> wrap_index n k < n"
  by (auto simp: ok_index_def wrap_index_def)

lemma setitem_cases:
  assumes "has_shape h w a"
  shows "setitem a r c v =
     (if ok_index h r \<and> ok_index w c
      then Inr (a[wrap_index h r := (a ! wrap_index h r)[wrap_index w c := v]])
      else Inl IndexError)"
proof (cases "ok_index h r")
  case True
  from assms have len: "length a = h" by (simp add: has_shape_def)
  have "length (a ! wrap_index h r) = w"
    using has_shape_row[OF assms wrap_index_less[OF True]] .
  then show ?thesis using True len by (simp add: setitem_def np_index_cases)
next
  case False
  from assms have len: "length a = h" by (simp add: has_shape_def)
  with False show ?thesis by (simp add: setitem_def np_index_cases)
qed

lemma setitem_shape:
  assumes "has_shape h w a" "setitem a r c v = Inr a'"
  shows "has_shape h w a'"
proof -
  from assms have ok: "ok_index h r" and
    a': "a' = a[wrap_index h r := (a ! wrap_index h r)[wrap_index w c := v]]"
    by (auto simp: setitem_cases[OF assms(1)] split: if_splits)
  show ?thesis unfolding a' by (rule has_shape_setitem[OF assms(1) wrap_index_less[OF ok]])
qed

text \<open>The loop of \<open>centre_grid\<close> raises exactly when one of its writes is out of range.\<close>

lemma centre_cells_cases:
  assumes "has_shape ph pw array" "list_all (in_shape ph pw) cs" "has_shape h w a"
  shows "if list_all (ok_write h w hdiff wdiff) cs
         then \<exists>a'. centre_cells array hdiff wdiff cs a = Inr a' \<and> has_shape h w a'
         else centre_cells array hdiff wdiff cs a = Inl IndexError"
  using assms(2,3)
proof (induction cs arbitrary: a)
  case Nil
  then show ?case by simp
next
  case (Cons p cs)
  obtain i j where p: "p = (i, j)" by (cases p)
  from Cons.prems(1) have ij: "0 \<le> i" "i < int ph" "0 \<le> j" "j < int pw"
    by (simp_all add: p in_shape_def)
  have row: "length (array ! nat i) = pw"
    using has_shape_row[OF assms(1), of "nat i"] ij by simp
  have get: "getitem array i j = Inr (at array i j)"
    using ij row assms(1) by (intro getitem_in) (simp_all add: has_shape_def)
  from Cons.prems(1) have rest: "list_all (in_shape ph pw) cs" by simp
  show ?case
  proof (cases "ok_write h w hdiff wdiff p")
    case False
    then have "setitem a (i + hdiff) (j + wdiff) (at array i j) = Inl IndexError"
      by (simp add: setitem_cases[OF Cons.prems(2)] ok_write_def p)
    with False show ?thesis by (simp add: p get and_then_def)
  next
    case True
    then obtain a1 where set: "setitem a (i + hdiff) (j + wdiff) (at array i j) = Inr a1"
      by (simp add: setitem_cases[OF Cons.prems(2)] ok_write_def p)
    have sh: "has_shape h w a1" by (rule setitem_shape[OF Cons.prems(2) set])
    have "centre_cells array hdiff wdiff (p # cs) a = centre_cells array hdiff wdiff cs a1"
      by (simp add: p get set and_then_def)
    with Cons.IH[OF rest sh] True show ?thesis by simp
  qed
qed

lemma coords_set:
  "set (coords h w) = {p. 0 \<le> fst p \<and> fst p < h \<and> 0 \<le> snd p \<and> snd p < w}"
proof (rule set_eqI)
  fix p :: "int \<times> int"
  obtain i j where p: "p = (i, j)" by (cases p)
  have "(i, j) \<in> set (coords h w) \<longleftrightarrow> i \<in> int ` {0..<nat h} \<and> j \<in> int ` {0..<nat w}"
    by (auto simp: coords_def py_range_def)
  also have "\<dots> \<longleftrightarrow> 0 \<le> i \<and> i < h \<and> 0 \<le> j \<and> j < w"
  proof -
    have "\<And>k n. (k \<in> int ` {0..<nat n}) = (0 \<le> k \<and> k < n)"
    proof -
      fix k n :: int
      show "(k \<in> int ` {0..<nat n}) = (0 \<le> k \<and> k < n)"
      proof
        assume "k \<in> int ` {0..<nat n}" then show "0 \<le> k \<and> k < n" by auto
      next
        assume "0 \<le> k \<and> k < n"
        then have "nat k \<in> {0..<nat n}" "k = int (nat k)" by auto
        then show "k \<in> int ` {0..<nat n}" by (rule_tac image_eqI)
      qed
    qed
    then show ?thesis by simp
  qed
  finally show "p \<in> set (coords h w) \<longleftrightarrow>
                p \<in> {p. 0 \<le> fst p \<and> fst p < h \<and> 0 \<le> snd p \<and> snd p < w}"
    by (simp add: p)
qed

lemma shape_of: "has_shape h w a \<Longrightarrow> 0 < h \<Longrightarrow> shape a = (int h, int w)"
  by (cases a) (auto simp: has_shape_def shape_def)

text \<open>All writes are in range exactly when the pattern is at most one row and one column too big.\<close>

lemma all_writes_ok:
  assumes "0 < H" "0 < W" "0 < h" "0 < w"
  shows "list_all (ok_write (nat H) (nat W) (centre_offset H h) (centre_offset W w)) (coords h w)
         \<longleftrightarrow> h \<le> H + 1 \<and> w \<le> W + 1"
proof
  assume all: "list_all (ok_write (nat H) (nat W) (centre_offset H h) (centre_offset W w)) (coords h w)"
  have "(h - 1, w - 1) \<in> set (coords h w)" using assms by (simp add: coords_set)
  with all have "ok_write (nat H) (nat W) (centre_offset H h) (centre_offset W w) (h - 1, w - 1)"
    by (simp add: list_all_iff)
  then show "h \<le> H + 1 \<and> w \<le> W + 1"
    using assms by (simp add: ok_write_def ok_index_def centre_offset_def) arith
next
  assume fit: "h \<le> H + 1 \<and> w \<le> W + 1"
  show "list_all (ok_write (nat H) (nat W) (centre_offset H h) (centre_offset W w)) (coords h w)"
    unfolding list_all_iff
  proof
    fix p assume "p \<in> set (coords h w)"
    then have "0 \<le> fst p" "fst p < h" "0 \<le> snd p" "snd p < w" by (simp_all add: coords_set)
    with fit assms show "ok_write (nat H) (nat W) (centre_offset H h) (centre_offset W w) p"
      by (simp add: ok_write_def ok_index_def centre_offset_def) arith
  qed
qed

lemma centre_grid_unfold:
  assumes "has_shape h w array" "0 < h"
  shows "centre_grid g array =
     and_then (centre_cells array (centre_offset (height g) (int h))
                 (centre_offset (width g) (int w)) (coords (int h) (int w)) (grid g))
       (\<lambda>a. Inr (g\<lparr>grid := a\<rparr>))"
  by (simp add: centre_grid_def shape_of[OF assms])

text \<open>
  Claim C6, as the code has it. \<open>centre_grid\<close> has no test on the size of the pattern.
  Seeding a pattern with at least one row and one column fails, with numpy's
  \<open>IndexError\<close>, exactly when the pattern has at least two rows more than the grid or at
  least two columns more; a pattern that is one row or one column too big is written
  without an error, its first row or column wrapping to the far side of the grid.
\<close>

theorem centre_grid_fails_iff:
  assumes "wf_grid g" "has_shape h w array" "0 < h" "0 < w"
  shows "(centre_grid g array = Inl IndexError \<longleftrightarrow>
            height g + 2 \<le> int h \<or> width g + 2 \<le> int w) \<and>
         ((\<exists>g'. centre_grid g array = Inr g') \<longleftrightarrow>
            int h \<le> height g + 1 \<and> int w \<le> width g + 1)"
proof -
  let ?cs = "coords (int h) (int w)"
  let ?run = "centre_cells array (centre_offset (height g) (int h))
                 (centre_offset (width g) (int w)) ?cs (grid g)"
  let ?ok = "list_all (ok_write (nat (height g)) (nat (width g))
                 (centre_offset (height g) (int h)) (centre_offset (width g) (int w))) ?cs"
  from assms(1) have pos: "0 < height g" "0 < width g" by (simp_all add: wf_grid_def)
  have inside: "list_all (in_shape h w) ?cs" using coords_in[of "int h" "int w"] by simp
  have cases: "if ?ok then \<exists>a'. ?run = Inr a' \<and> has_shape (nat (height g)) (nat (width g)) a'
               else ?run = Inl IndexError"
    by (rule centre_cells_cases[OF assms(2) inside wf_grid_shape[OF assms(1)]])
  have ok: "?ok \<longleftrightarrow> int h \<le> height g + 1 \<and> int w \<le> width g + 1"
    using all_writes_ok[OF pos, of "int h" "int w"] assms(3,4) by simp
  have unfold: "centre_grid g array = and_then ?run (\<lambda>a. Inr (g\<lparr>grid := a\<rparr>))"
    by (rule centre_grid_unfold[OF assms(2,3)])
  show ?thesis
  proof (cases ?ok)
    case True
    with cases obtain a' where "?run = Inr a'" by auto
    then have "centre_grid g array = Inr (g\<lparr>grid := a'\<rparr>)"
      by (simp add: unfold and_then_def)
    with True ok show ?thesis by auto
  next
    case False
    with cases have "?run = Inl IndexError" by simp
    then have "centre_grid g array = Inl IndexError" by (simp add: unfold and_then_def)
    with False ok show ?thesis by auto
  qed
qed

theorem centre_grid_fails_iff_witness:
  "wf_grid small \<and> has_shape 5 3 towering \<and> has_shape 4 3 tall \<and>
   centre_grid small towering = Inl IndexError \<and>
   (\<exists>g'. centre_grid small tall = Inr g')"
proof -
  have wf: "wf_grid small" by (simp add: wf_grid_def small_def conway_def)
  have hw: "height small = 3" "width small = 3" by (simp_all add: small_def conway_def)
  have s5: "has_shape 5 3 towering" by (simp add: has_shape_def towering_def)
  have s4: "has_shape 4 3 tall" by (simp add: has_shape_def tall_def)
  have "centre_grid small towering = Inl IndexError"
    using centre_grid_fails_iff[OF wf s5] by (simp add: hw)
  moreover have "\<exists>g'. centre_grid small tall = Inr g'"
    using centre_grid_fails_iff[OF wf s4] by (simp add: hw)
  ultimately show ?thesis using wf s5 s4 by simp
qed

text \<open>
  The claim as written fails: a pattern of four rows does not fit a grid of three, and
  \<open>centre_grid\<close> returns. The first row of the pattern is written to the last row of
  the grid (index \<open>-1\<close>) and then overwritten by the fourth.
\<close>

theorem centre_grid_too_large_counterexample:
  "shape tall = (4, 3) \<and> height small = 3 \<and> width small = 3 \<and>
   centre_grid small tall = Inr (small\<lparr>grid := [[0, 1, 0], [0, 0, 0], [1, 0, 1]]\<rparr>)"
  by code_simp

lemma centre_grid_towering: "centre_grid small towering = Inl IndexError"
  by code_simp

lemma at_setitem:
  assumes "has_shape h w a" "0 \<le> r" "r < int h" "0 \<le> c" "c < int w"
    "0 \<le> i" "i < int h" "0 \<le> j" "j < int w"
  shows "at (a[nat r := (a ! nat r)[nat c := v]]) i j = (if i = r \<and> j = c then v else at a i j)"
proof -
  from assms have len: "length a = h" by (simp add: has_shape_def)
  have row: "length (a ! nat r) = w" using has_shape_row[OF assms(1), of "nat r"] assms by simp
  have "(a[nat r := (a ! nat r)[nat c := v]]) ! nat i ! nat j =
        (if nat i = nat r \<and> nat j = nat c then v else a ! nat i ! nat j)"
    using assms len row by (intro nth_setitem) simp_all
  moreover have "(nat i = nat r \<and> nat j = nat c) = (i = r \<and> j = c)" using assms by auto
  ultimately show ?thesis by (simp add: at_def)
qed

text \<open>With offsets that keep the pattern inside the grid, every write goes where it says.\<close>

lemma centre_cells_writes:
  assumes "has_shape ph pw array" "list_all (in_shape ph pw) cs" "has_shape h w a"
    "0 \<le> hdiff" "hdiff + int ph \<le> int h" "0 \<le> wdiff" "wdiff + int pw \<le> int w"
  shows "\<exists>a'. centre_cells array hdiff wdiff cs a = Inr a' \<and> has_shape h w a' \<and>
           (\<forall>r c. 0 \<le> r \<and> r < int h \<and> 0 \<le> c \<and> c < int w \<longrightarrow>
              at a' r c = (if (r - hdiff, c - wdiff) \<in> set cs
                           then at array (r - hdiff) (c - wdiff) else at a r c))"
  using assms(2,3)
proof (induction cs arbitrary: a)
  case Nil
  then show ?case by simp
next
  case (Cons p cs)
  obtain i j where p: "p = (i, j)" by (cases p)
  from Cons.prems(1) have ij: "0 \<le> i" "i < int ph" "0 \<le> j" "j < int pw"
    by (simp_all add: p in_shape_def)
  have row: "length (array ! nat i) = pw"
    using has_shape_row[OF assms(1), of "nat i"] ij by simp
  have get: "getitem array i j = Inr (at array i j)"
    using ij row assms(1) by (intro getitem_in) (simp_all add: has_shape_def)
  let ?r = "i + hdiff" and ?c = "j + wdiff"
  from ij assms(4-7) have rc: "0 \<le> ?r" "?r < int h" "0 \<le> ?c" "?c < int w" by simp_all
  let ?a = "a[nat ?r := (a ! nat ?r)[nat ?c := at array i j]]"
  have arow: "length (a ! nat ?r) = w"
    using has_shape_row[OF Cons.prems(2), of "nat ?r"] rc by simp
  have set: "setitem a ?r ?c (at array i j) = Inr ?a"
    using rc arow Cons.prems(2) by (intro setitem_in) (simp_all add: has_shape_def)
  have sh: "has_shape h w ?a"
    using rc by (intro has_shape_setitem[OF Cons.prems(2)]) simp
  from Cons.prems(1) have rest: "list_all (in_shape ph pw) cs" by simp
  from Cons.IH[OF rest sh] obtain a' where
    run: "centre_cells array hdiff wdiff cs ?a = Inr a'" and sh': "has_shape h w a'" and
    vals: "\<forall>r c. 0 \<le> r \<and> r < int h \<and> 0 \<le> c \<and> c < int w \<longrightarrow>
              at a' r c = (if (r - hdiff, c - wdiff) \<in> set cs
                           then at array (r - hdiff) (c - wdiff) else at ?a r c)"
    by blast
  have "centre_cells array hdiff wdiff (p # cs) a = Inr a'"
    by (simp add: p get set run and_then_def)
  moreover have "\<forall>r c. 0 \<le> r \<and> r < int h \<and> 0 \<le> c \<and> c < int w \<longrightarrow>
              at a' r c = (if (r - hdiff, c - wdiff) \<in> set (p # cs)
                           then at array (r - hdiff) (c - wdiff) else at a r c)"
  proof (intro allI impI)
    fix r c assume b: "0 \<le> r \<and> r < int h \<and> 0 \<le> c \<and> c < int w"
    then have "at ?a r c = (if r = ?r \<and> c = ?c then at array i j else at a r c)"
      using rc by (intro at_setitem[OF Cons.prems(2)]) simp_all
    moreover have "(r - hdiff = i \<and> c - wdiff = j) = (r = ?r \<and> c = ?c)" by auto
    ultimately show "at a' r c = (if (r - hdiff, c - wdiff) \<in> set (p # cs)
                           then at array (r - hdiff) (c - wdiff) else at a r c)"
      using vals b by (auto simp: p)
  qed
  ultimately show ?case using sh' by blast
qed

text \<open>
  Claim C5. A pattern of \<open>h\<close> rows and \<open>w\<close> columns that fits the grid is written by
  \<open>centre_grid\<close> as one block whose top-left corner is at row
  \<open>(height - h) // 2\<close> and column \<open>(width - w) // 2\<close>; every cell outside the block
  keeps its value. For a pattern of 3 by 3 the corner is at \<open>(3, 3)\<close> in a grid of 9 by
  9 and at \<open>(2, 2)\<close> in a grid of 8 by 8.
\<close>

theorem centre_grid_block:
  assumes "wf_grid g" "has_shape h w array" "0 < h" "int h \<le> height g" "int w \<le> width g"
  shows "(\<exists>a'. centre_grid g array = Inr (g\<lparr>grid := a'\<rparr>) \<and>
            has_shape (nat (height g)) (nat (width g)) a' \<and>
            (\<forall>r c. 0 \<le> r \<and> r < height g \<and> 0 \<le> c \<and> c < width g \<longrightarrow>
               at a' r c =
                 (if centre_offset (height g) (int h) \<le> r \<and>
                     r < centre_offset (height g) (int h) + int h \<and>
                     centre_offset (width g) (int w) \<le> c \<and>
                     c < centre_offset (width g) (int w) + int w
                  then at array (r - centre_offset (height g) (int h))
                         (c - centre_offset (width g) (int w))
                  else at (grid g) r c))) \<and>
         centre_offset 9 3 = 3 \<and> centre_offset 8 3 = 2"
proof -
  let ?hd = "centre_offset (height g) (int h)" and ?wd = "centre_offset (width g) (int w)"
  from assms(1) have pos: "0 < height g" "0 < width g" by (simp_all add: wf_grid_def)
  have inside: "list_all (in_shape h w) (coords (int h) (int w))"
    using coords_in[of "int h" "int w"] by simp
  have off: "0 \<le> ?hd" "?hd + int h \<le> int (nat (height g))"
            "0 \<le> ?wd" "?wd + int w \<le> int (nat (width g))"
    using assms(4,5) pos by (simp_all add: centre_offset_def)
  from centre_cells_writes[OF assms(2) inside wf_grid_shape[OF assms(1)] off]
  obtain a' where
    run: "centre_cells array ?hd ?wd (coords (int h) (int w)) (grid g) = Inr a'" and
    sh: "has_shape (nat (height g)) (nat (width g)) a'" and
    vals: "\<forall>r c. 0 \<le> r \<and> r < int (nat (height g)) \<and> 0 \<le> c \<and> c < int (nat (width g)) \<longrightarrow>
              at a' r c = (if (r - ?hd, c - ?wd) \<in> set (coords (int h) (int w))
                           then at array (r - ?hd) (c - ?wd) else at (grid g) r c)"
    by blast
  have "centre_grid g array = Inr (g\<lparr>grid := a'\<rparr>)"
    by (simp add: centre_grid_unfold[OF assms(2,3)] run and_then_def)
  moreover have "\<forall>r c. 0 \<le> r \<and> r < height g \<and> 0 \<le> c \<and> c < width g \<longrightarrow>
      at a' r c = (if ?hd \<le> r \<and> r < ?hd + int h \<and> ?wd \<le> c \<and> c < ?wd + int w
                   then at array (r - ?hd) (c - ?wd) else at (grid g) r c)"
  proof (intro allI impI)
    fix r c assume b: "0 \<le> r \<and> r < height g \<and> 0 \<le> c \<and> c < width g"
    have "((r - ?hd, c - ?wd) \<in> set (coords (int h) (int w))) =
          (?hd \<le> r \<and> r < ?hd + int h \<and> ?wd \<le> c \<and> c < ?wd + int w)"
      by (auto simp: coords_set)
    with vals b pos show "at a' r c =
        (if ?hd \<le> r \<and> r < ?hd + int h \<and> ?wd \<le> c \<and> c < ?wd + int w
         then at array (r - ?hd) (c - ?wd) else at (grid g) r c)"
      by simp
  qed
  moreover have "centre_offset 9 3 = 3 \<and> centre_offset 8 3 = 2"
    by (simp add: centre_offset_def)
  ultimately show ?thesis using sh by blast
qed

lemma centre_glider_nine:
  "centre_grid (conway 9 9 (np_zeros 9 9)) glider = Inr (conway 9 9
     [[0, 0, 0, 0, 0, 0, 0, 0, 0],
      [0, 0, 0, 0, 0, 0, 0, 0, 0],
      [0, 0, 0, 0, 0, 0, 0, 0, 0],
      [0, 0, 0, 0, 1, 0, 0, 0, 0],
      [0, 0, 0, 0, 0, 1, 0, 0, 0],
      [0, 0, 0, 1, 1, 1, 0, 0, 0],
      [0, 0, 0, 0, 0, 0, 0, 0, 0],
      [0, 0, 0, 0, 0, 0, 0, 0, 0],
      [0, 0, 0, 0, 0, 0, 0, 0, 0]])"
  by code_simp

lemma centre_glider_eight:
  "centre_grid (conway 8 8 (np_zeros 8 8)) glider = Inr (conway 8 8
     [[0, 0, 0, 0, 0, 0, 0, 0],
      [0, 0, 0, 0, 0, 0, 0, 0],
      [0, 0, 0, 1, 0, 0, 0, 0],
      [0, 0, 0, 0, 1, 0, 0, 0],
      [0, 0, 1, 1, 1, 0, 0, 0],
      [0, 0, 0, 0, 0, 0, 0, 0],
      [0, 0, 0, 0, 0, 0, 0, 0],
      [0, 0, 0, 0, 0, 0, 0, 0]])"
  by code_simp

theorem centre_grid_block_witness:
  "wf_grid (conway 9 9 (np_zeros 9 9)) \<and> has_shape 3 3 glider \<and>
   (\<exists>a'. centre_grid (conway 9 9 (np_zeros 9 9)) glider =
            Inr ((conway 9 9 (np_zeros 9 9))\<lparr>grid := a'\<rparr>) \<and>
         has_shape 9 9 a' \<and>
         at a' 3 4 = at glider 0 1 \<and> at a' 5 3 = at glider 2 0 \<and>
         at a' 2 4 = at (np_zeros 9 9) 2 4 \<and> at a' 6 6 = at (np_zeros 9 9) 6 6)"
proof -
  let ?g = "conway 9 9 (np_zeros 9 9)"
  have wf: "wf_grid ?g"
    using has_shape_zeros[of 9 9] by (simp add: wf_grid_def conway_def has_shape_def)
  have sh: "has_shape 3 3 glider" by (simp add: has_shape_def glider_def)
  have hw: "height ?g = 9" "width ?g = 9" "grid ?g = np_zeros 9 9" by (simp_all add: conway_def)
  have off: "centre_offset 9 3 = 3" by (simp add: centre_offset_def)
  from centre_grid_block[OF wf sh] obtain a' where
    run: "centre_grid ?g glider = Inr (?g\<lparr>grid := a'\<rparr>)" and
    sh': "has_shape 9 9 a'" and
    vals: "\<forall>r c. 0 \<le> r \<and> r < 9 \<and> 0 \<le> c \<and> c < 9 \<longrightarrow>
       at a' r c = (if 3 \<le> r \<and> r < 6 \<and> 3 \<le> c \<and> c < 6
                    then at glider (r - 3) (c - 3) else at (np_zeros 9 9) r c)"
    by (auto simp: hw off)
  from vals have "at a' 3 4 = at glider 0 1" "at a' 5 3 = at glider 2 0"
    "at a' 2 4 = at (np_zeros 9 9) 2 4" "at a' 6 6 = at (np_zeros 9 9) 6 6"
    by simp_all
  with run sh' wf sh show ?thesis by blast
qed

section \<open>The animation loop\<close>

lemma run_ok_advance: "run_ok g \<Longrightarrow> run_ok (advance g)"
  using wf_grid_update[of g] by (simp add: run_ok_def advance_def)

lemma run_ok_generation: "run_ok g \<Longrightarrow> run_ok (generation k g)"
  by (induction k) (simp_all add: generation_def run_ok_advance)












text \<open>With \<open>niter\<close> zero or negative the range is empty and no step is made.\<close>

lemma run_no_step: "n \<le> 0 \<Longrightarrow> run (Some n) g out = Some (Inr (g, out))"
  by (simp add: run_def py_range_def)







text \<open>The same runs, evaluated: the final grid and the frames printed.\<close>

lemma run_lonely:
  "run (Some 5) lonely [] =
     Some (Inr (conway 3 3 [[0, 0, 0], [0, 0, 0], [0, 0, 0]], [[[0, 0, 0], [0, 0, 0], [0, 0, 0]]]))"
  by code_simp

lemma run_blinker:
  "run (Some 2) blinker [] = Some (Inr (blinker, [grid flat, grid blinker]))"
  by code_simp

end
